theory Spec2Isabelle
  imports Main
begin

unbundle bit_operations_syntax

section \<open>The chat server and client of blather, as a shallow embedding\<close>

text \<open>
  The development follows \<^verbatim>\<open>src/server_funcs.c\<close> and the \<^verbatim>\<open>%last\<close> branch of
  \<^verbatim>\<open>user_worker\<close> in \<^verbatim>\<open>src/bl_client.c\<close>. The C functions mutate a
  \<^verbatim>\<open>server_t\<close> through a pointer and talk to the operating system; here every
  function takes the server record and a record of the operating system's state and
  returns both, together with the C return value. A process that is terminated, that
  dereferences outside an array, or that blocks in a read for ever, ends in \<open>Halt\<close>
  with the state it had reached.

  C \<^verbatim>\<open>int\<close> values (descriptors, indices, \<^verbatim>\<open>n_clients\<close>) are HOL integers: the
  server code only compares them and adds or subtracts one under a guard. The
  \<^verbatim>\<open>%last\<close> command does arithmetic on file offsets, and there the 64-bit wrap-around
  is written out. Fixed-capacity character arrays are HOL strings; \<^verbatim>\<open>log_printf\<close> and
  \<^verbatim>\<open>dbg_printf\<close> output is not modelled.
\<close>

subsection \<open>Data model\<close>

text \<open>
  Modelled from the spec: the types \<^verbatim>\<open>mesg_t\<close>, \<^verbatim>\<open>join_t\<close>, \<^verbatim>\<open>client_t\<close>, \<^verbatim>\<open>server_t\<close>
  and \<^verbatim>\<open>who_t\<close> are declared in blather.h, which is not among the sources. The records
  below have the fields that section 3 of the specification lists, under the names
  by which \<^verbatim>\<open>server_funcs.c\<close> and \<^verbatim>\<open>bl_client.c\<close> access them; the kinds are the six
  enumerators the sources use. The constants \<^verbatim>\<open>MAXCLIENTS\<close>, \<^verbatim>\<open>sizeof(who_t)\<close> and
  \<^verbatim>\<open>sizeof(mesg_t)\<close> of the same header are parameters of the functions that use them.
\<close>

datatype mesg_kind_t = BL_MESG | BL_JOINED | BL_DEPARTED | BL_SHUTDOWN | BL_DISCONNECTED | BL_PING

text \<open>\<^verbatim>\<open>mesg_t\<close>: the fields \<^verbatim>\<open>name\<close> of the three structs are told apart by a prefix.\<close>

record mesg_t =
  kind :: mesg_kind_t
  m_name :: string
  body :: string

record join_t =
  j_name :: string
  j_to_server_fname :: string
  j_to_client_fname :: string

record client_t =
  name :: string
  to_client_fd :: int
  to_server_fd :: int
  to_client_fname :: string
  to_server_fname :: string
  last_contact_time :: int
  data_ready :: int

text \<open>
  \<^verbatim>\<open>server_t\<close>: \<open>client\<close> is the array \<^verbatim>\<open>client[MAXCLIENTS]\<close>, a list whose length is the
  array's size; the entries at and after \<open>n_clients\<close> are slack.
\<close>

record server_t =
  server_name :: string
  join_fd :: int
  join_ready :: int
  n_clients :: int
  client :: "client_t list"
  time_sec :: int
  log_fd :: int

text \<open>\<^verbatim>\<open>memset(&client, 0, sizeof(client_t))\<close>.\<close>

definition zero_client :: client_t where
  "zero_client = \<lparr>name = [], to_client_fd = 0, to_server_fd = 0, to_client_fname = [],
     to_server_fname = [], last_contact_time = 0, data_ready = 0\<rparr>"

subsection \<open>The operating system\<close>

text \<open>
  What the system calls of the sources see and change: the paths present in the file
  system, the descriptors open in the process, the descriptors on which \<^verbatim>\<open>write\<close>
  and \<^verbatim>\<open>close\<close> report an error although they are open (EINTR, EIO), the records
  waiting in each FIFO (by the descriptor that reads it), every record written so far
  (in order, with the descriptor written to), whether a signal interrupts the next
  \<^verbatim>\<open>poll\<close>, and the clock.
\<close>

record world =
  files :: "string set"
  fds :: "int list"
  eio :: "int list"
  pending_join :: "int \<Rightarrow> join_t list"
  pending_mesg :: "int \<Rightarrow> mesg_t list"
  written :: "(int \<times> mesg_t) list"
  interrupted :: bool
  clock :: int

datatype err = Exit | OutOfBounds | Blocked

datatype 'a result = Ret 'a server_t world | Halt err server_t world

fun srv_of :: "'a result \<Rightarrow> server_t" where
  "srv_of (Ret v s w) = s"
| "srv_of (Halt e s w) = s"

fun os_of :: "'a result \<Rightarrow> world" where
  "os_of (Ret v s w) = w"
| "os_of (Halt e s w) = w"

text \<open>\<^verbatim>\<open>close(fd)\<close>: -1 on a descriptor that is not open or that reports an error.\<close>

definition sys_close :: "int \<Rightarrow> world \<Rightarrow> int \<times> world" where
  "sys_close fd w =
     (if fd \<in> set (fds w)
      then (if fd \<in> set (eio w) then - 1 else 0, w\<lparr>fds := removeAll fd (fds w)\<rparr>)
      else (- 1, w))"

text \<open>\<^verbatim>\<open>remove(path)\<close>: unlinks the path when it is present.\<close>

definition sys_remove :: "string \<Rightarrow> world \<Rightarrow> int \<times> world" where
  "sys_remove path w =
     (if path \<in> files w then (0, w\<lparr>files := files w - {path}\<rparr>) else (- 1, w))"

text \<open>
  \<^verbatim>\<open>open(path, O_RDWR)\<close>: the lowest descriptor that is not open, or -1 when the path
  is absent.
\<close>

definition sys_open :: "string \<Rightarrow> world \<Rightarrow> int \<times> world" where
  "sys_open path w =
     (if path \<in> files w
      then (case find (\<lambda>n. int n \<notin> set (fds w)) [0 ..< Suc (length (fds w))] of
              Some n \<Rightarrow> (int n, w\<lparr>fds := int n # fds w\<rparr>)
            | None \<Rightarrow> (- 1, w))
      else (- 1, w))"

text \<open>
  \<^verbatim>\<open>write(fd, mesg, sizeof(mesg_t))\<close>: the flag is \<open>True\<close> when the call returns -1;
  a successful write appends the record to what has been written.
\<close>

definition writable :: "world \<Rightarrow> int \<Rightarrow> bool" where
  "writable w fd = (fd \<in> set (fds w) \<and> fd \<notin> set (eio w))"

definition sys_write :: "int \<Rightarrow> mesg_t \<Rightarrow> world \<Rightarrow> bool \<times> world" where
  "sys_write fd m w =
     (if writable w fd
      then (False, w\<lparr>written := written w @ [(fd, m)]\<rparr>)
      else (True, w))"

text \<open>
  A blocking \<^verbatim>\<open>read\<close> of one record: it fails on a descriptor that is not open, never
  returns on an empty FIFO (the server holds every FIFO open for writing too, so there
  is no end of file), and otherwise takes the oldest record.
\<close>

datatype 'a rd = Got 'a world | Failed | Never

definition sys_read_join :: "int \<Rightarrow> world \<Rightarrow> join_t rd" where
  "sys_read_join fd w =
     (if fd \<in> set (fds w)
      then (case pending_join w fd of
              [] \<Rightarrow> Never
            | j # js \<Rightarrow> Got j (w\<lparr>pending_join := (pending_join w)(fd := js)\<rparr>))
      else Failed)"

definition sys_read_mesg :: "int \<Rightarrow> world \<Rightarrow> mesg_t rd" where
  "sys_read_mesg fd w =
     (if fd \<in> set (fds w)
      then (case pending_mesg w fd of
              [] \<Rightarrow> Never
            | m # ms \<Rightarrow> Got m (w\<lparr>pending_mesg := (pending_mesg w)(fd := ms)\<rparr>))
      else Failed)"

subsection \<open>Helpers of blather.h\<close>

text \<open>
  Modelled from the spec: \<^verbatim>\<open>check_fail(condition, perr, fmt, ...)\<close> is declared in
  blather.h and defined outside the sources at hand. The sources call it after every
  system call whose failure is fatal (section 7 of the specification: abort the
  process with a diagnostic; section 6: a non-zero exit on a fatal I/O error), so it
  is taken to print the diagnostic and terminate the process when the condition holds
  and to return otherwise.
\<close>

definition check_fail :: "bool \<Rightarrow> err option" where
  "check_fail condition = (if condition then Some Exit else None)"

subsection \<open>Array access\<close>

text \<open>An index outside the array is undefined behaviour in C; here it is an error.\<close>

definition in_bounds :: "'a list \<Rightarrow> int \<Rightarrow> bool" where
  "in_bounds xs i = (0 \<le> i \<and> i < int (length xs))"

subsection \<open>server_funcs.c\<close>

text \<open>
  \<^verbatim>\<open>server_get_client\<close> returns a pointer into the array; the model returns the slot
  the pointer refers to.
\<close>

definition server_get_client :: "server_t \<Rightarrow> int \<Rightarrow> err + nat" where
  "server_get_client s idx =
     (case check_fail (idx \<ge> n_clients s) of
        Some e \<Rightarrow> Inl e
      | None \<Rightarrow> if in_bounds (client s) idx then Inr (nat idx) else Inl OutOfBounds)"

text \<open>
  The loop of \<^verbatim>\<open>server_remove_client\<close>:
  \<^verbatim>\<open>for (i = idx; i < n_clients - 1; ++i) client[i] = *server_get_client(server, i + 1);\<close>
\<close>

function shift_clients :: "int \<Rightarrow> server_t \<Rightarrow> err + server_t" where
  "shift_clients i s =
     (if i < n_clients s - 1
      then (case server_get_client s (i + 1) of
              Inl e \<Rightarrow> Inl e
            | Inr k \<Rightarrow>
                if in_bounds (client s) i
                then shift_clients (i + 1) (s\<lparr>client := (client s)[nat i := client s ! k]\<rparr>)
                else Inl OutOfBounds)
      else Inr s)"
  by pat_completeness auto
termination
  by (relation "measure (\<lambda>(i, s). nat (n_clients s - 1 - i))") auto

declare shift_clients.simps [simp del]

text \<open>
  \<^verbatim>\<open>server_remove_client\<close> (lines 130-148). The second \<^verbatim>\<open>close\<close> is only attempted when
  the first one succeeded (\<^verbatim>\<open>||\<close>), and a failing \<^verbatim>\<open>close\<close> returns -1 before anything
  is unlinked or shifted.
\<close>

definition server_remove_client :: "server_t \<Rightarrow> world \<Rightarrow> int \<Rightarrow> int result" where
  "server_remove_client s w idx =
     (if idx \<ge> n_clients s then Ret (- 1) s w
      else (case server_get_client s idx of
        Inl e \<Rightarrow> Halt e s w
      | Inr k \<Rightarrow>
          (let (r1, w1) = sys_close (to_client_fd (client s ! k)) w in
           if r1 = - 1 then Ret (- 1) s w1
           else (let (r2, w2) = sys_close (to_server_fd (client s ! k)) w1 in
             if r2 = - 1 then Ret (- 1) s w2
             else (let (r3, w3) = sys_remove (to_client_fname (client s ! k)) w2;
                       (r4, w4) = sys_remove (to_server_fname (client s ! k)) w3
                   in (case shift_clients idx s of
                         Inl e \<Rightarrow> Halt e s w4
                       | Inr s' \<Rightarrow> Ret 0 (s'\<lparr>n_clients := n_clients s' - 1\<rparr>) w4))))))"

text \<open>
  \<^verbatim>\<open>server_broadcast\<close> (lines 156-166): the loop from index \<open>i\<close> on. After each
  \<^verbatim>\<open>write\<close> comes \<^verbatim>\<open>check_fail(n_write == -1, ...)\<close>.
\<close>

function broadcast_from :: "int \<Rightarrow> server_t \<Rightarrow> world \<Rightarrow> mesg_t \<Rightarrow> unit result" where
  "broadcast_from i s w mesg =
     (if i < n_clients s
      then (case server_get_client s i of
              Inl e \<Rightarrow> Halt e s w
            | Inr k \<Rightarrow>
                (let (failed, w') = sys_write (to_client_fd (client s ! k)) mesg w in
                 (case check_fail failed of
                    Some e \<Rightarrow> Halt e s w'
                  | None \<Rightarrow> broadcast_from (i + 1) s w' mesg)))
      else Ret () s w)"
  by pat_completeness auto
termination
  by (relation "measure (\<lambda>(i, s, w, mesg). nat (n_clients s - i))") auto

declare broadcast_from.simps [simp del]

definition server_broadcast :: "server_t \<Rightarrow> world \<Rightarrow> mesg_t \<Rightarrow> unit result" where
  "server_broadcast s w mesg = broadcast_from 0 s w mesg"

text \<open>
  \<^verbatim>\<open>server_add_client\<close> (lines 89-123). \<open>MAXCLIENTS\<close> is a constant of blather.h and a
  parameter here. The new record is stored at \<^verbatim>\<open>client[n_clients++]\<close> before the
  broadcast, so the new client is among the receivers of its own JOINED record.
\<close>

definition server_add_client :: "int \<Rightarrow> server_t \<Rightarrow> world \<Rightarrow> join_t \<Rightarrow> int result" where
  "server_add_client MAXCLIENTS s w join =
     (if n_clients s \<ge> MAXCLIENTS then Ret (- 1) s w
      else
        (let c0 = zero_client\<lparr>name := j_name join,
                    to_client_fname := j_to_client_fname join,
                    to_server_fname := j_to_server_fname join,
                    last_contact_time := clock w\<rparr>;
             (fd1, w1) = sys_open (to_client_fname c0) w
         in (case check_fail (fd1 = - 1) of
               Some e \<Rightarrow> Halt e s w1
             | None \<Rightarrow>
                 (let (fd2, w2) = sys_open (to_server_fname c0) w1 in
                  (case check_fail (fd2 = - 1) of
                     Some e \<Rightarrow> Halt e s w2
                   | None \<Rightarrow>
                       (let c = c0\<lparr>to_client_fd := fd1, to_server_fd := fd2\<rparr>;
                            join_mesg = \<lparr>kind = BL_JOINED, m_name = name c, body = []\<rparr>
                        in if in_bounds (client s) (n_clients s)
                           then (case server_broadcast
                                        (s\<lparr>client := (client s)[nat (n_clients s) := c],
                                           n_clients := n_clients s + 1\<rparr>) w2 join_mesg of
                                   Halt e s' w' \<Rightarrow> Halt e s' w'
                                 | Ret u s' w' \<Rightarrow> Ret 0 s' w')
                           else Halt OutOfBounds s w2))))))"

text \<open>
  The loop of \<^verbatim>\<open>server_shutdown\<close>:
  \<^verbatim>\<open>for (i = 0; i < server->n_clients; ++i) server_remove_client(server, i);\<close>
  The bound is read again at every iteration, after the removal has lowered it, and
  the return value is dropped.
\<close>

lemma shift_clients_n_clients:
  "shift_clients i s = Inr s' \<Longrightarrow> n_clients s' = n_clients s"
proof (induction i s rule: shift_clients.induct)
  case (1 i s)
  from "1.prems" show ?case
    by (subst (asm) shift_clients.simps) (auto split: if_splits sum.splits dest: "1.IH")
qed

lemma server_remove_client_n_clients:
  "server_remove_client s w idx = Ret r s' w' \<Longrightarrow>
     n_clients s' = n_clients s \<or> (idx < n_clients s \<and> n_clients s' = n_clients s - 1)"
  by (auto simp: server_remove_client_def Let_def
      split: if_splits sum.splits prod.splits dest: shift_clients_n_clients)

function shutdown_loop :: "int \<Rightarrow> server_t \<Rightarrow> world \<Rightarrow> unit result" where
  "shutdown_loop i s w =
     (if i < n_clients s
      then (case server_remove_client s w i of
              Halt e s' w' \<Rightarrow> Halt e s' w'
            | Ret r s' w' \<Rightarrow> shutdown_loop (i + 1) s' w')
      else Ret () s w)"
  by pat_completeness auto
termination
proof (relation "measure (\<lambda>(i, s, w). nat (n_clients s - i))")
  show "wf (measure (\<lambda>(i, s, w). nat (n_clients s - i)))"
    by simp
next
  fix i :: int and s w r s' w'
  assume "i < n_clients s" and "server_remove_client s w i = Ret r s' w'"
  then show "((i + 1, s', w'), (i, s, w)) \<in> measure (\<lambda>(i, s, w). nat (n_clients s - i))"
    using server_remove_client_n_clients [of s w i r s' w'] by auto
qed

declare shutdown_loop.simps [simp del]

text \<open>
  \<^verbatim>\<open>server_shutdown\<close> (lines 58-77). The path given to \<^verbatim>\<open>remove\<close> is
  \<^verbatim>\<open>server->server_name\<close>; \<^verbatim>\<open>server_start\<close> created the join FIFO as the server name
  followed by \<^verbatim>\<open>.fifo\<close>.
\<close>

definition server_shutdown :: "server_t \<Rightarrow> world \<Rightarrow> unit result" where
  "server_shutdown s w =
     (let (r1, w1) = sys_close (join_fd s) w;
          (r2, w2) = sys_remove (server_name s) w1;
          mesg = \<lparr>kind = BL_SHUTDOWN, m_name = [], body = []\<rparr>
      in (case server_broadcast s w2 mesg of
            Halt e s' w' \<Rightarrow> Halt e s' w'
          | Ret u s3 w3 \<Rightarrow>
              (case shutdown_loop 0 s3 w3 of
                 Halt e s' w' \<Rightarrow> Halt e s' w'
               | Ret u' s4 w4 \<Rightarrow>
                   (let (r5, w5) = sys_close (log_fd s4) w4 in Ret () s4 w5))))"

text \<open>
  \<^verbatim>\<open>server_handle_join\<close> (lines 243-253): one record is read from the join FIFO,
  \<^verbatim>\<open>check_fail(n_read == -1, ...)\<close> follows, and \<^verbatim>\<open>join_ready\<close> is cleared. The
  function body contains no call of \<^verbatim>\<open>server_add_client\<close>.
\<close>

definition server_handle_join :: "server_t \<Rightarrow> world \<Rightarrow> unit result" where
  "server_handle_join s w =
     (case sys_read_join (join_fd s) w of
        Never \<Rightarrow> Halt Blocked s w
      | Failed \<Rightarrow>
          (case check_fail True of
             Some e \<Rightarrow> Halt e s w
           | None \<Rightarrow> Ret () (s\<lparr>join_ready := 0\<rparr>) w)
      | Got join w' \<Rightarrow>
          (case check_fail False of
             Some e \<Rightarrow> Halt e s w'
           | None \<Rightarrow> Ret () (s\<lparr>join_ready := 0\<rparr>) w'))"

text \<open>
  \<^verbatim>\<open>server_handle_client\<close> (lines 280-308). After the read the two fields of the
  client record are written through \<^verbatim>\<open>server_get_client\<close>. In the
  \<^verbatim>\<open>switch (mesg.kind)\<close> the names \<^verbatim>\<open>BL_DEPARTED:\<close>, \<^verbatim>\<open>BL_MESG:\<close>, \<^verbatim>\<open>BL_DISCONNECTED:\<close>,
  \<^verbatim>\<open>BL_PING:\<close> and \<^verbatim>\<open>BL_SHUTDOWN:\<close> stand without the keyword \<^verbatim>\<open>case\<close>: they are
  statement labels, and the only case label of the switch is \<^verbatim>\<open>default\<close>. Control
  therefore goes to \<^verbatim>\<open>default: break;\<close> for every kind, which is what
  \<open>switch_kind\<close> says. (The statements behind the labels are unreachable; two of them,
  \<^verbatim>\<open>server_remove_client(server.idx)\<close> and \<^verbatim>\<open>server_broadcast(server, mesg)\<close>, are
  not well-typed C.)
\<close>

fun switch_kind :: "mesg_kind_t \<Rightarrow> server_t \<Rightarrow> world \<Rightarrow> unit result" where
  "switch_kind BL_DEPARTED s w = Ret () s w"
| "switch_kind BL_MESG s w = Ret () s w"
| "switch_kind BL_DISCONNECTED s w = Ret () s w"
| "switch_kind BL_PING s w = Ret () s w"
| "switch_kind BL_SHUTDOWN s w = Ret () s w"
| "switch_kind BL_JOINED s w = Ret () s w"

definition after_read :: "nat \<Rightarrow> server_t \<Rightarrow> world \<Rightarrow> server_t" where
  "after_read k s w =
     (let s1 = s\<lparr>client := (client s)[k := (client s ! k)\<lparr>data_ready := 0\<rparr>]\<rparr>
      in s1\<lparr>client := (client s1)[k := (client s1 ! k)\<lparr>last_contact_time := clock w\<rparr>]\<rparr>)"

definition server_handle_client :: "server_t \<Rightarrow> world \<Rightarrow> int \<Rightarrow> unit result" where
  "server_handle_client s w idx =
     (case server_get_client s idx of
        Inl e \<Rightarrow> Halt e s w
      | Inr k \<Rightarrow>
          (case sys_read_mesg (to_server_fd (client s ! k)) w of
             Never \<Rightarrow> Halt Blocked s w
           | Failed \<Rightarrow>
               (case check_fail True of
                  Some e \<Rightarrow> Halt e s w
                | None \<Rightarrow> Ret () (after_read k s w) w)
           | Got mesg w' \<Rightarrow>
               (case check_fail False of
                  Some e \<Rightarrow> Halt e s w'
                | None \<Rightarrow> switch_kind (kind mesg) (after_read k s w') w')))"

subsection \<open>Polling\<close>

text \<open>\<^verbatim>\<open>struct pollfd\<close>, and the two flag values of the system's poll.h that matter.\<close>

record pollfd =
  fd :: int
  events :: int
  revents :: int

definition POLLIN :: int where
  "POLLIN = 1"

definition POLLNVAL :: int where
  "POLLNVAL = 32"

definition readable :: "world \<Rightarrow> int \<Rightarrow> bool" where
  "readable w d = (\<not> (pending_join w d = [] \<and> pending_mesg w d = []))"

text \<open>
  What \<^verbatim>\<open>poll\<close> stores in one entry: nothing for a negative descriptor, POLLNVAL for
  one that is not open, POLLIN for one that was asked about input and has a record
  waiting.
\<close>

definition poll_one :: "world \<Rightarrow> pollfd \<Rightarrow> pollfd" where
  "poll_one w p =
     p\<lparr>revents :=
         (if fd p < 0 then 0
          else if fd p \<notin> set (fds w) then POLLNVAL
          else if events p AND POLLIN = POLLIN \<and> readable w (fd p) then POLLIN
          else 0)\<rparr>"

text \<open>
  \<^verbatim>\<open>poll(fds, nfds, -1)\<close> examines the first \<open>nfds\<close> entries and no others. It
  returns -1 when a signal interrupts it, never returns when no entry has an event
  (the timeout is infinite), and otherwise returns the number of entries with an event.
\<close>

definition sys_poll :: "pollfd list \<Rightarrow> int \<Rightarrow> world \<Rightarrow> (int \<times> pollfd list) option" where
  "sys_poll pfds nfds w =
     (if interrupted w then Some (- 1, pfds)
      else (let polled = map (poll_one w) (take (nat nfds) pfds);
                n = length (filter (\<lambda>p. revents p \<noteq> 0) polled)
            in if n = 0 then None else Some (int n, polled @ drop (nat nfds) pfds)))"

text \<open>
  \<^verbatim>\<open>server_check_sources\<close>, lines 189-198: the array \<^verbatim>\<open>poll_fds[2 + MAXCLIENTS]\<close> is
  zeroed, slot 0 gets the join descriptor, slot 1 the log descriptor, and the loop
  stores in slot \<open>i + 2\<close> the descriptor of \<^verbatim>\<open>server->client[i + 2]\<close>.
\<close>

function fill_poll_fds :: "int \<Rightarrow> server_t \<Rightarrow> pollfd list \<Rightarrow> err + pollfd list" where
  "fill_poll_fds i s pfds =
     (if i < n_clients s
      then (if in_bounds pfds (i + 2) \<and> in_bounds (client s) (i + 2)
            then fill_poll_fds (i + 1) s
                   (pfds[nat (i + 2) := (pfds ! nat (i + 2))
                      \<lparr>fd := to_server_fd (client s ! nat (i + 2)),
                       events := events (pfds ! nat (i + 2)) OR POLLIN\<rparr>])
            else Inl OutOfBounds)
      else Inr pfds)"
  by pat_completeness auto
termination
  by (relation "measure (\<lambda>(i, s, pfds). nat (n_clients s - i))") auto

declare fill_poll_fds.simps [simp del]

definition poll_setup :: "int \<Rightarrow> server_t \<Rightarrow> err + pollfd list" where
  "poll_setup MAXCLIENTS s =
     (let z = replicate (nat (2 + MAXCLIENTS)) \<lparr>fd = 0, events = 0, revents = 0\<rparr> in
      if in_bounds z 0 \<and> in_bounds z 1
      then fill_poll_fds 0 s
             (z[0 := (z ! 0)\<lparr>fd := join_fd s, events := events (z ! 0) OR POLLIN\<rparr>,
                1 := (z ! 1)\<lparr>fd := log_fd s, events := events (z ! 1) OR POLLIN\<rparr>])
      else Inl OutOfBounds)"

text \<open>
  Lines 217-224: the loop that sets \<^verbatim>\<open>data_ready\<close>. The source writes
  \<^verbatim>\<open>server_get_client(server, i).data_ready = 1\<close>; the function returns a pointer, and
  the member access is read as \<^verbatim>\<open>->\<close>.
\<close>

function mark_ready :: "int \<Rightarrow> server_t \<Rightarrow> world \<Rightarrow> pollfd list \<Rightarrow> unit result" where
  "mark_ready i s w pfds =
     (if i < n_clients s
      then (if in_bounds pfds (i + 2)
            then (if POLLIN AND revents (pfds ! nat (i + 2)) \<noteq> 0
                  then (case server_get_client s i of
                          Inl e \<Rightarrow> Halt e s w
                        | Inr k \<Rightarrow>
                            mark_ready (i + 1)
                              (s\<lparr>client := (client s)[k := (client s ! k)\<lparr>data_ready := 1\<rparr>]\<rparr>)
                              w pfds)
                  else mark_ready (i + 1) s w pfds)
            else Halt OutOfBounds s w)
      else Ret () s w)"
  by pat_completeness auto
termination
  by (relation "measure (\<lambda>(i, s, w, pfds). nat (n_clients s - i))") auto

declare mark_ready.simps [simp del]

text \<open>
  \<^verbatim>\<open>server_check_sources\<close> (lines 186-227). The call is
  \<^verbatim>\<open>poll(poll_fds, POLLIN, -1)\<close>: the second argument of \<^verbatim>\<open>poll\<close> is the number of
  entries, and the source passes the flag.
\<close>

definition poll_nfds :: int where
  "poll_nfds = POLLIN"

definition server_check_sources :: "int \<Rightarrow> server_t \<Rightarrow> world \<Rightarrow> unit result" where
  "server_check_sources MAXCLIENTS s w =
     (case poll_setup MAXCLIENTS s of
        Inl e \<Rightarrow> Halt e s w
      | Inr pfds \<Rightarrow>
          (if int (length pfds) < poll_nfds then Halt OutOfBounds s w
           else (case sys_poll pfds poll_nfds w of
                   None \<Rightarrow> Halt Blocked s w
                 | Some (num, pfds') \<Rightarrow>
                     if num = - 1 then Ret () s w
                     else mark_ready 0
                            (if POLLIN AND revents (pfds' ! 0) \<noteq> 0
                             then s\<lparr>join_ready := 1\<rparr> else s)
                            w pfds')))"

subsection \<open>bl_client.c: the local commands of the input worker\<close>

text \<open>
  The log file as the client reads it: the \<^verbatim>\<open>who_t\<close> record at offset 0, then the
  message records. \<open>sizeof(who_t)\<close> and \<open>sizeof(mesg_t)\<close> come from blather.h and
  are the parameters \<open>W\<close> and \<open>M\<close> of the functions below.
\<close>

record logfile =
  who_n_clients :: int
  who_names :: "string list"
  mesgs :: "mesg_t list"

datatype outcome = Printed "string list" | Sent mesg_t | Indeterminate

text \<open>\<^verbatim>\<open>strncmp(buf, lit, n) == 0\<close> on strings without an inner terminator.\<close>

definition strncmp_eq :: "string \<Rightarrow> string \<Rightarrow> nat \<Rightarrow> bool" where
  "strncmp_eq buf lit n = (take n buf = take n lit)"

text \<open>
  \<^verbatim>\<open>atoi\<close>: white space, an optional sign, then decimal digits up to the first
  character that is none. A value outside the range of \<^verbatim>\<open>int\<close> is undefined
  behaviour in C and \<open>None\<close> here.
\<close>

definition is_space :: "char \<Rightarrow> bool" where
  "is_space c = (c \<in> set [CHR 0x20, CHR 0x09, CHR 0x0A, CHR 0x0B, CHR 0x0C, CHR 0x0D])"

definition is_digit :: "char \<Rightarrow> bool" where
  "is_digit c = (48 \<le> (of_char c :: nat) \<and> (of_char c :: nat) \<le> 57)"

fun digits_val :: "int \<Rightarrow> string \<Rightarrow> int" where
  "digits_val acc [] = acc"
| "digits_val acc (c # cs) =
     (if is_digit c then digits_val (10 * acc + (of_char c - 48)) cs else acc)"

definition atoi :: "string \<Rightarrow> int option" where
  "atoi str =
     (let t = dropWhile is_space str;
          v = (case t of
                 [] \<Rightarrow> 0
               | c # cs \<Rightarrow>
                   if c = CHR ''-'' then - digits_val 0 cs
                   else if c = CHR ''+'' then digits_val 0 cs
                   else digits_val 0 t)
      in if - (2 ^ 31) \<le> v \<and> v < 2 ^ 31 then Some v else None)"

definition starts_with_digit :: "string \<Rightarrow> bool" where
  "starts_with_digit str = (case str of [] \<Rightarrow> False | c # cs \<Rightarrow> is_digit c)"

text \<open>What \<^verbatim>\<open>%d\<close> prints.\<close>

definition digit_char :: "nat \<Rightarrow> char" where
  "digit_char d = char_of (48 + d)"

fun dec :: "nat \<Rightarrow> string" where
  "dec n = (if 10 \<le> n then dec (n div 10) @ [digit_char (n mod 10)] else [digit_char n])"

declare dec.simps [simp del]

definition show_int :: "int \<Rightarrow> string" where
  "show_int i = (if i < 0 then CHR ''-'' # dec (nat (- i)) else dec (nat i))"

definition nl :: string where
  "nl = [CHR 0x0A]"

definition sep :: string where
  "sep = ''===================='' @ nl"

text \<open>\<^verbatim>\<open>iprintf(simpio, "[%s] : %s\n", mesg.name, mesg.body)\<close>.\<close>

definition fmt_mesg :: "mesg_t \<Rightarrow> string" where
  "fmt_mesg m = ''['' @ m_name m @ ''] : '' @ body m @ nl"

text \<open>
  A value of type \<^verbatim>\<open>long\<close> after arithmetic that went through \<^verbatim>\<open>size_t\<close>: the exact
  result, wrapped into the signed 64-bit range.
\<close>

definition long_of :: "int \<Rightarrow> int" where
  "long_of x = (x + 2 ^ 63) mod 2 ^ 64 - 2 ^ 63"

definition log_size :: "int \<Rightarrow> int \<Rightarrow> logfile \<Rightarrow> int" where
  "log_size W M lg = W + M * int (length (mesgs lg))"

text \<open>
  \<^verbatim>\<open>pread(log_fd, &mesg, sizeof(mesg_t), offset)\<close>: before the start and at or after
  the end of the file nothing is stored and the buffer keeps its content; at the
  start of a message record the record is stored; anywhere else the bytes stored are
  not one message record.
\<close>

datatype pread_result = Rec mesg_t | Unchanged | Garbage

definition pread_mesg :: "int \<Rightarrow> int \<Rightarrow> logfile \<Rightarrow> int \<Rightarrow> pread_result" where
  "pread_mesg W M lg offset =
     (if offset < 0 then Unchanged
      else if log_size W M lg \<le> offset then Unchanged
      else if W \<le> offset \<and> (offset - W) mod M = 0
           then Rec (mesgs lg ! nat ((offset - W) div M))
      else Garbage)"

text \<open>
  Lines 69-73, \<^verbatim>\<open>for (int i = 0; i < num; ++i)\<close>: the body does not use \<open>i\<close>, so the
  recursion is on the number of iterations left. The buffer \<^verbatim>\<open>mesg\<close> is not
  initialised before the loop (\<open>None\<close>); printing it in that state has no defined
  result.
\<close>

fun last_loop :: "int \<Rightarrow> int \<Rightarrow> logfile \<Rightarrow> nat \<Rightarrow> int \<Rightarrow> mesg_t option \<Rightarrow> string list option" where
  "last_loop W M lg 0 offset buf = Some []"
| "last_loop W M lg (Suc n) offset buf =
     (case (case pread_mesg W M lg offset of
              Rec m \<Rightarrow> Some m
            | Unchanged \<Rightarrow> buf
            | Garbage \<Rightarrow> None) of
        None \<Rightarrow> None
      | Some m \<Rightarrow>
          map_option ((#) (fmt_mesg m)) (last_loop W M lg n (long_of (offset + M)) (Some m)))"

text \<open>
  Lines 60-74. \<^verbatim>\<open>simpio->buf + 6\<close> lies behind the terminator when the line has five
  characters. \<^verbatim>\<open>lseek(log_fd, 0, SEEK_END)\<close> gives the size of the file.
\<close>

definition last_cmd :: "int \<Rightarrow> int \<Rightarrow> logfile \<Rightarrow> string \<Rightarrow> outcome" where
  "last_cmd W M lg buf =
     (if length buf < 6 then Indeterminate
      else (case atoi (drop 6 buf) of
              None \<Rightarrow> Indeterminate
            | Some num \<Rightarrow>
                (let offset = long_of (log_size W M lg - num * M) in
                 (case last_loop W M lg (nat num) offset None of
                    None \<Rightarrow> Indeterminate
                  | Some ls \<Rightarrow>
                      Printed ([sep, ''LAST '' @ show_int num @ '' MESSAGES'' @ nl] @ ls @ [sep])))))"

text \<open>Lines 49-59, the \<^verbatim>\<open>%who\<close> command.\<close>

definition who_cmd :: "logfile \<Rightarrow> outcome" where
  "who_cmd lg =
     (if who_n_clients lg \<le> int (length (who_names lg))
      then Printed ([sep, show_int (who_n_clients lg) @ '' CLIENTS'' @ nl]
             @ map (\<lambda>i. dec i @ '': '' @ who_names lg ! i @ nl) [0 ..< nat (who_n_clients lg)]
             @ [sep])
      else Indeterminate)"

text \<open>
  Lines 48-91 of \<^verbatim>\<open>user_worker\<close>: what is done with a completed line (the end of
  input has left the loop before).
\<close>

definition user_line :: "bool \<Rightarrow> int \<Rightarrow> int \<Rightarrow> logfile \<Rightarrow> string \<Rightarrow> string \<Rightarrow> outcome" where
  "user_line DO_ADVANCED W M lg client_name buf =
     (if DO_ADVANCED \<and> strncmp_eq buf ''%who'' 4 \<and> DO_ADVANCED then who_cmd lg
      else if DO_ADVANCED \<and> strncmp_eq buf ''%last'' 5 then last_cmd W M lg buf
      else Sent \<lparr>kind = BL_MESG, m_name = client_name, body = buf\<rparr>)"

subsection \<open>Observations and example states\<close>

text \<open>The clients in use: the first \<open>n_clients\<close> entries of the array.\<close>

definition live :: "server_t \<Rightarrow> client_t list" where
  "live s = take (nat (n_clients s)) (client s)"

fun ret_of :: "'a result \<Rightarrow> 'a option" where
  "ret_of (Ret v s w) = Some v"
| "ret_of (Halt e s w) = None"

text \<open>Invariant 1 of the specification.\<close>

definition n_clients_inv :: "int \<Rightarrow> server_t \<Rightarrow> bool" where
  "n_clients_inv MAXCLIENTS s = (0 \<le> n_clients s \<and> n_clients s \<le> MAXCLIENTS)"

text \<open>
  A server named \<open>srv\<close> with room for four clients and two of them connected, and the
  process state that goes with it: the join FIFO on descriptor 3, the clients' FIFOs on
  descriptors 4 to 7.
\<close>

definition ex_alice :: client_t where
  "ex_alice = \<lparr>name = ''alice'', to_client_fd = 4, to_server_fd = 5,
     to_client_fname = ''11.client.fifo'', to_server_fname = ''11.server.fifo'',
     last_contact_time = 90, data_ready = 0\<rparr>"

definition ex_bob :: client_t where
  "ex_bob = \<lparr>name = ''bob'', to_client_fd = 6, to_server_fd = 7,
     to_client_fname = ''12.client.fifo'', to_server_fname = ''12.server.fifo'',
     last_contact_time = 95, data_ready = 0\<rparr>"

definition ex_server :: server_t where
  "ex_server = \<lparr>server_name = ''srv'', join_fd = 3, join_ready = 0, n_clients = 2,
     client = [ex_alice, ex_bob, zero_client, zero_client], time_sec = 0, log_fd = 0\<rparr>"

definition ex_world :: world where
  "ex_world = \<lparr>files = {''srv.fifo'', ''11.client.fifo'', ''11.server.fifo'',
       ''12.client.fifo'', ''12.server.fifo'', ''13.client.fifo'', ''13.server.fifo''},
     fds = [0, 1, 2, 3, 4, 5, 6, 7], eio = [],
     pending_join = (\<lambda>d. []), pending_mesg = (\<lambda>d. []),
     written = [], interrupted = False, clock = 100\<rparr>"

definition ex_join :: join_t where
  "ex_join = \<lparr>j_name = ''carol'', j_to_server_fname = ''13.server.fifo'',
     j_to_client_fname = ''13.client.fifo''\<rparr>"

definition ex_mesg :: mesg_t where
  "ex_mesg = \<lparr>kind = BL_MESG, m_name = ''alice'', body = ''hello''\<rparr>"

text \<open>
  A sequence of calls of \<^verbatim>\<open>server_add_client\<close> and \<^verbatim>\<open>server_remove_client\<close>, each
  on the state the one before has left; the sequence ends early when the process does.
\<close>

datatype call = Add join_t | Remove int

fun apply_call :: "int \<Rightarrow> call \<Rightarrow> server_t \<Rightarrow> world \<Rightarrow> int result" where
  "apply_call MAXCLIENTS (Add join) s w = server_add_client MAXCLIENTS s w join"
| "apply_call MAXCLIENTS (Remove idx) s w = server_remove_client s w idx"

fun apply_calls :: "int \<Rightarrow> call list \<Rightarrow> server_t \<Rightarrow> world \<Rightarrow> unit result" where
  "apply_calls MAXCLIENTS [] s w = Ret () s w"
| "apply_calls MAXCLIENTS (c # cs) s w =
     (case apply_call MAXCLIENTS c s w of
        Halt e s' w' \<Rightarrow> Halt e s' w'
      | Ret r s' w' \<Rightarrow> apply_calls MAXCLIENTS cs s' w')"

definition ex_calls :: "call list" where
  "ex_calls = [Remove 0, Add ex_join, Add ex_join, Add ex_join, Remove 1, Remove 7]"

text \<open>
  A log of four messages, and a log of \<open>2\<^sup>3\<^sup>1\<close> messages.
\<close>

definition ex_log :: logfile where
  "ex_log = \<lparr>who_n_clients = 1, who_names = [''alice''],
     mesgs = [\<lparr>kind = BL_MESG, m_name = ''alice'', body = ''one''\<rparr>,
              \<lparr>kind = BL_MESG, m_name = ''alice'', body = ''two''\<rparr>,
              \<lparr>kind = BL_MESG, m_name = ''alice'', body = ''three''\<rparr>,
              \<lparr>kind = BL_MESG, m_name = ''alice'', body = ''four''\<rparr>]\<rparr>"

definition ex_long_log :: logfile where
  "ex_long_log = \<lparr>who_n_clients = 0, who_names = [], mesgs = replicate 2147483648 ex_mesg\<rparr>"

section \<open>Properties\<close>

subsection \<open>Removing with an index at or beyond \<open>n_clients\<close>\<close>

text \<open>
  Claim C10. A call of \<^verbatim>\<open>server_remove_client\<close> with \<open>idx \<ge> n_clients\<close> returns the
  non-zero value -1 and changes nothing: the server record (with \<open>n_clients\<close> and the
  client array) and the state of the operating system (descriptors and FIFO files)
  are the ones it was called with.
\<close>

theorem server_remove_client_out_of_range:
  assumes "idx \<ge> n_clients s"
  shows "server_remove_client s w idx = Ret (- 1) s w \<and> (- 1 :: int) \<noteq> 0"
  using assms by (simp add: server_remove_client_def)

theorem server_remove_client_out_of_range_witness:
  "(2::int) \<ge> n_clients ex_server
   \<and> server_remove_client ex_server ex_world 2 = Ret (- 1) ex_server ex_world"
  using server_remove_client_out_of_range [of ex_server 2 ex_world]
  by (simp add: ex_server_def)

subsection \<open>Adding to a full table\<close>

text \<open>
  Claim C7. When \<open>n_clients = MAXCLIENTS\<close>, \<^verbatim>\<open>server_add_client\<close> returns the non-zero
  value -1 and leaves the server record and the operating system as they were: no
  entry is added, \<open>n_clients\<close> and the array are unchanged, and nothing is written to
  any client, so no JOINED record is broadcast.
\<close>

theorem server_add_client_full:
  assumes "n_clients s = MAXCLIENTS"
  shows "server_add_client MAXCLIENTS s w join = Ret (- 1) s w \<and> (- 1 :: int) \<noteq> 0"
  using assms by (simp add: server_add_client_def)

theorem server_add_client_full_witness:
  "n_clients ex_server = 2
   \<and> server_add_client 2 ex_server ex_world ex_join = Ret (- 1) ex_server ex_world
   \<and> written (os_of (server_add_client 2 ex_server ex_world ex_join)) = []"
  using server_add_client_full [of ex_server 2 ex_world ex_join]
  by (simp add: ex_server_def ex_world_def)

subsection \<open>Handling a join\<close>

text \<open>
  Claim C1 says that \<^verbatim>\<open>server_handle_join\<close> reads one join record, appends the client
  and broadcasts JOINED. On the server \<open>ex_server\<close> with \<open>join_ready\<close> set and carol's
  join record waiting in the join FIFO, the function returns after taking the record
  out of the FIFO and clearing \<open>join_ready\<close>; the table still holds alice and bob
  only, \<open>n_clients\<close> is still 2, and nothing has been written to any client.
\<close>

theorem server_handle_join_adds_nothing:
  "(let r = server_handle_join (ex_server\<lparr>join_ready := 1\<rparr>)
              (ex_world\<lparr>pending_join := (\<lambda>d. [])(3 := [ex_join])\<rparr>)
    in ret_of r = Some ()
       \<and> pending_join (os_of r) 3 = []
       \<and> join_ready (srv_of r) = 0
       \<and> n_clients (srv_of r) = 2
       \<and> live (srv_of r) = [ex_alice, ex_bob]
       \<and> written (os_of r) = [])"
  by code_simp

subsection \<open>Handling a client's message\<close>

text \<open>
  Claim C2 says that a MESG record received from client \<open>idx\<close> is broadcast unchanged
  to all clients. On \<open>ex_server\<close> with a MESG record from alice waiting on her
  descriptor 5, \<^verbatim>\<open>server_handle_client\<close> for index 0 returns after taking the record
  and updating alice's contact time; nothing has been written to any client.
\<close>

theorem server_handle_client_mesg_not_broadcast:
  "(let r = server_handle_client ex_server
              (ex_world\<lparr>pending_mesg := (\<lambda>d. [])(5 := [ex_mesg])\<rparr>) 0
    in kind ex_mesg = BL_MESG
       \<and> ret_of r = Some ()
       \<and> pending_mesg (os_of r) 5 = []
       \<and> live (srv_of r) = [ex_alice\<lparr>last_contact_time := 100\<rparr>, ex_bob]
       \<and> written (os_of r) = [])"
  by code_simp

subsection \<open>Checking the sources\<close>

text \<open>
  Claim C3 says that \<^verbatim>\<open>poll\<close> is given \<open>1 + n_clients\<close> entries, the join FIFO in slot
  0 and client \<open>i\<close> in slot \<open>i + 1\<close>, and that afterwards \<open>data_ready\<close> is set for
  exactly the clients whose FIFO is readable. On \<open>ex_server\<close> (two clients, reading
  from descriptors 5 and 7) with a record waiting in the join FIFO and in both client
  FIFOs: the number of entries passed is 1; the array holds the join descriptor 3 in
  slot 0, the log descriptor 0 in slot 1 and the descriptors of the unused array
  entries \<open>client[2]\<close> and \<open>client[3]\<close> in slots 2 and 3, and neither 5 nor 7
  anywhere; the function returns with \<open>join_ready\<close> set and \<open>data_ready\<close> 0 for both
  clients.
\<close>

theorem server_check_sources_misses_clients:
  "(let w = ex_world\<lparr>pending_join := (\<lambda>d. [])(3 := [ex_join]),
                      pending_mesg := (\<lambda>d. [])(5 := [ex_mesg], 7 := [ex_mesg])\<rparr>;
        r = server_check_sources 4 ex_server w
    in n_clients ex_server = 2
       \<and> map to_server_fd (live ex_server) = [5, 7]
       \<and> poll_nfds = 1
       \<and> poll_setup 4 ex_server =
           Inr [\<lparr>fd = 3, events = 1, revents = 0\<rparr>, \<lparr>fd = 0, events = 1, revents = 0\<rparr>,
                \<lparr>fd = 0, events = 1, revents = 0\<rparr>, \<lparr>fd = 0, events = 1, revents = 0\<rparr>,
                \<lparr>fd = 0, events = 0, revents = 0\<rparr>, \<lparr>fd = 0, events = 0, revents = 0\<rparr>]
       \<and> readable w 5 \<and> readable w 7
       \<and> ret_of r = Some ()
       \<and> join_ready (srv_of r) = 1
       \<and> map data_ready (live (srv_of r)) = [0, 0])"
  by code_simp

subsection \<open>Shutting down\<close>

text \<open>
  Claim C4 says that after \<^verbatim>\<open>server_shutdown\<close> the join FIFO \<^verbatim>\<open>srv.fifo\<close> is closed and
  unlinked, SHUTDOWN has been broadcast and no client is left. On \<open>ex_server\<close> the
  function returns with the join descriptor 3 closed and SHUTDOWN written to both
  clients, but the path \<^verbatim>\<open>srv.fifo\<close> is still present, \<open>n_clients\<close> is 1, and bob's
  record, his open descriptors and his two FIFO files are still there.
\<close>

theorem server_shutdown_leaves_fifo_and_client:
  "(let r = server_shutdown ex_server ex_world
    in ret_of r = Some ()
       \<and> 3 \<notin> set (fds (os_of r))
       \<and> written (os_of r) = [(4, \<lparr>kind = BL_SHUTDOWN, m_name = [], body = []\<rparr>),
                                (6, \<lparr>kind = BL_SHUTDOWN, m_name = [], body = []\<rparr>)]
       \<and> ''srv.fifo'' \<in> files (os_of r)
       \<and> n_clients (srv_of r) = 1
       \<and> live (srv_of r) = [ex_bob]
       \<and> 6 \<in> set (fds (os_of r)) \<and> 7 \<in> set (fds (os_of r))
       \<and> ''12.client.fifo'' \<in> files (os_of r) \<and> ''12.server.fifo'' \<in> files (os_of r))"
  by code_simp

subsection \<open>Auxiliary facts\<close>

lemma server_get_client_in_range:
  assumes "0 \<le> i" "i < n_clients s" "n_clients s \<le> int (length (client s))"
  shows "server_get_client s i = Inr (nat i)"
  using assms by (simp add: server_get_client_def check_fail_def in_bounds_def)

lemma writable_written [simp]: "writable (w\<lparr>written := x\<rparr>) d = writable w d"
  by (simp add: writable_def)

lemma live_drop:
  assumes "0 \<le> i" "i < n_clients s" "n_clients s \<le> int (length (client s))"
  shows "drop (nat i) (live s) = client s ! nat i # drop (nat (i + 1)) (live s)"
proof -
  have "nat i < length (live s)" using assms by (simp add: live_def)
  then have "drop (nat i) (live s) = live s ! nat i # drop (Suc (nat i)) (live s)"
    by (simp add: Cons_nth_drop_Suc)
  moreover have "live s ! nat i = client s ! nat i" using assms by (simp add: live_def)
  moreover have "Suc (nat i) = nat (i + 1)" using assms by simp
  ultimately show ?thesis by simp
qed

lemma broadcast_from_eq:
  assumes "0 \<le> i" "n_clients s \<le> int (length (client s))"
  shows "broadcast_from i s w mesg =
     (let rest = drop (nat i) (live s);
          reached = takeWhile (\<lambda>c. writable w (to_client_fd c)) rest;
          w' = w\<lparr>written := written w @ map (\<lambda>c. (to_client_fd c, mesg)) reached\<rparr>
      in if length reached = length rest then Ret () s w' else Halt Exit s w')"
  using assms
proof (induction i s w mesg rule: broadcast_from.induct)
  case (1 i s w mesg)
  show ?case
  proof (cases "i < n_clients s")
    case False
    then have "drop (nat i) (live s) = []" by (simp add: live_def)
    with False show ?thesis by (subst broadcast_from.simps) simp
  next
    case True
    note get = server_get_client_in_range [OF "1.prems"(1) True "1.prems"(2)]
    note dr = live_drop [OF "1.prems"(1) True "1.prems"(2)]
    show ?thesis
    proof (cases "writable w (to_client_fd (client s ! nat i))")
      case False
      with True get dr show ?thesis
        by (subst broadcast_from.simps) (simp add: sys_write_def check_fail_def)
    next
      case wr: True
      define w1 where "w1 = w\<lparr>written := written w @ [(to_client_fd (client s ! nat i), mesg)]\<rparr>"
      have sw: "(False, w1) = sys_write (to_client_fd (client s ! nat i)) mesg w"
        using wr by (simp add: sys_write_def w1_def)
      have cf: "check_fail False = None"
        by (simp add: check_fail_def)
      have nonneg: "0 \<le> i + 1"
        using "1.prems"(1) by simp
      have ih: "broadcast_from (i + 1) s w1 mesg =
         (let rest = drop (nat (i + 1)) (live s);
              reached = takeWhile (\<lambda>c. writable w (to_client_fd c)) rest;
              w' = w\<lparr>written := written w @ (to_client_fd (client s ! nat i), mesg)
                       # map (\<lambda>c. (to_client_fd c, mesg)) reached\<rparr>
          in if length reached = length rest then Ret () s w' else Halt Exit s w')"
        using "1.IH" [OF True get refl sw cf nonneg "1.prems"(2)]
        by (simp add: w1_def Let_def)
      show ?thesis
        using True get dr wr ih
        by (subst broadcast_from.simps) (simp add: sys_write_def check_fail_def Let_def w1_def)
    qed
  qed
qed

lemma shift_clients_spec:
  assumes "0 \<le> i" "n_clients s \<le> int (length (client s))"
  shows "\<exists>cs. shift_clients i s = Inr (s\<lparr>client := cs\<rparr>) \<and> length cs = length (client s)
           \<and> (\<forall>j < length cs. cs ! j =
                 (if nat i \<le> j \<and> int j < n_clients s - 1 then client s ! Suc j else client s ! j))"
  using assms
proof (induction i s rule: shift_clients.induct)
  case (1 i s)
  show ?case
  proof (cases "i < n_clients s - 1")
    case False
    then have "shift_clients i s = Inr (s\<lparr>client := client s\<rparr>)"
      by (subst shift_clients.simps) simp
    moreover have "\<forall>j < length (client s). client s ! j =
        (if nat i \<le> j \<and> int j < n_clients s - 1 then client s ! Suc j else client s ! j)"
      using False by auto
    ultimately show ?thesis by blast
  next
    case True
    have get: "server_get_client s (i + 1) = Inr (nat (i + 1))"
      using True "1.prems" by (intro server_get_client_in_range) auto
    have inb: "in_bounds (client s) i"
      using True "1.prems" by (simp add: in_bounds_def)
    define s1 where "s1 = s\<lparr>client := (client s)[nat i := client s ! nat (i + 1)]\<rparr>"
    have "\<exists>cs. shift_clients (i + 1) s1 = Inr (s1\<lparr>client := cs\<rparr>) \<and> length cs = length (client s1)
           \<and> (\<forall>j < length cs. cs ! j =
                 (if nat (i + 1) \<le> j \<and> int j < n_clients s1 - 1 then client s1 ! Suc j else client s1 ! j))"
      unfolding s1_def using "1.prems" by (intro "1.IH" [OF True get inb]) auto
    then obtain cs where cs: "shift_clients (i + 1) s1 = Inr (s1\<lparr>client := cs\<rparr>)"
      "length cs = length (client s1)"
      "\<And>j. j < length cs \<Longrightarrow> cs ! j =
          (if nat (i + 1) \<le> j \<and> int j < n_clients s1 - 1 then client s1 ! Suc j else client s1 ! j)"
      by blast
    have eq: "shift_clients i s = Inr (s\<lparr>client := cs\<rparr>)"
      using True get inb cs(1) by (subst shift_clients.simps) (simp add: s1_def)
    have len: "length cs = length (client s)"
      using cs(2) by (simp add: s1_def)
    have "cs ! j = (if nat i \<le> j \<and> int j < n_clients s - 1 then client s ! Suc j else client s ! j)"
      if "j < length cs" for j
    proof -
      have nat_Suc: "nat (i + 1) = Suc (nat i)" using "1.prems"(1) by simp
      have upd: "cs ! j =
          (if Suc (nat i) \<le> j \<and> int j < n_clients s - 1
           then (client s)[nat i := client s ! Suc (nat i)] ! Suc j
           else (client s)[nat i := client s ! Suc (nat i)] ! j)"
        using cs(3) [OF that] unfolding s1_def nat_Suc by simp
      have bound: "nat i < length (client s)" "int (nat i) < n_clients s - 1"
        using True "1.prems" by simp_all
      consider "j < nat i" | "j = nat i" | "nat i < j" by linarith
      then show ?thesis
      proof cases
        case 1
        then show ?thesis using upd by simp
      next
        case 2
        then show ?thesis using upd bound by simp
      next
        case 3
        then show ?thesis using upd by simp
      qed
    qed
    with eq len show ?thesis by blast
  qed
qed

lemma sys_close_ret: "fst (sys_close d w) = 0 \<or> fst (sys_close d w) = - 1"
  by (simp add: sys_close_def)

subsection \<open>Broadcasting when a write fails\<close>

text \<open>
  Claim C8 says that a failed write to one client does not abort the fan-out. On
  \<open>ex_server\<close>, with alice's descriptor 4 open but reporting an error on write and
  bob's descriptor 6 writable, \<^verbatim>\<open>server_broadcast\<close> does not return: the process is
  ended by \<^verbatim>\<open>check_fail\<close> after the first write, and nothing has been written to bob.
\<close>

theorem server_broadcast_aborts_counterexample:
  "(let w = ex_world\<lparr>eio := [4]\<rparr>;
        r = server_broadcast ex_server w ex_mesg
    in map to_client_fd (live ex_server) = [4, 6]
       \<and> 4 \<in> set (fds w) \<and> writable w 6
       \<and> ret_of r = None
       \<and> written (os_of r) = [])"
  by code_simp

text \<open>
  Claim C8, amended. \<^verbatim>\<open>server_broadcast\<close> writes the record to the clients in table
  order, as far as the writes succeed. When every write succeeds, every client in
  use has been written once and the function returns normally. At the first write
  that fails the process is ended (\<open>Halt Exit\<close>): the clients before the failing one
  have been written, the failing one and all after it have not.
\<close>

theorem server_broadcast_until_failure:
  assumes "0 \<le> n_clients s" "n_clients s \<le> int (length (client s))"
  shows "server_broadcast s w mesg =
     (let reached = takeWhile (\<lambda>c. writable w (to_client_fd c)) (live s);
          w' = w\<lparr>written := written w @ map (\<lambda>c. (to_client_fd c, mesg)) reached\<rparr>
      in if length reached = length (live s) then Ret () s w' else Halt Exit s w')"
  using broadcast_from_eq [of 0 s w mesg] assms by (simp add: server_broadcast_def Let_def)

theorem server_broadcast_until_failure_witness:
  "0 \<le> n_clients ex_server \<and> n_clients ex_server \<le> int (length (client ex_server))
   \<and> server_broadcast ex_server ex_world ex_mesg =
       Ret () ex_server (ex_world\<lparr>written := [(4, ex_mesg), (6, ex_mesg)]\<rparr>)
   \<and> server_broadcast ex_server (ex_world\<lparr>eio := [6]\<rparr>) ex_mesg =
       Halt Exit ex_server (ex_world\<lparr>eio := [6], written := [(4, ex_mesg)]\<rparr>)"
  using server_broadcast_until_failure [of ex_server ex_world ex_mesg]
    server_broadcast_until_failure [of ex_server "ex_world\<lparr>eio := [6]\<rparr>" ex_mesg]
  by (simp add: ex_server_def ex_world_def ex_alice_def ex_bob_def live_def writable_def)

subsection \<open>Removing a client when a close fails\<close>

text \<open>
  Claim C5 says that the record at \<open>idx\<close> is removed even when closing one of the
  client's descriptors fails. On \<open>ex_server\<close>, with alice's descriptor 5 open but
  reporting an error on close, \<^verbatim>\<open>server_remove_client\<close> for index 0 returns -1 and
  the table still holds alice at index 0 and bob at index 1.
\<close>

theorem server_remove_client_close_fails_counterexample:
  "(let w = ex_world\<lparr>eio := [5]\<rparr>;
        r = server_remove_client ex_server w 0
    in (0::int) < n_clients ex_server
       \<and> to_server_fd (client ex_server ! 0) = 5
       \<and> fst (sys_close 5 w) = - 1
       \<and> ret_of r = Some (- 1)
       \<and> n_clients (srv_of r) = 2
       \<and> live (srv_of r) = [ex_alice, ex_bob])"
  by code_simp

text \<open>
  Claim C5, amended. For \<open>0 \<le> idx < n_clients\<close> (and \<open>n_clients\<close> within the
  array): when both closes succeed, \<^verbatim>\<open>server_remove_client\<close> returns 0, \<open>n_clients\<close>
  is one less, and the clients in use are the former ones without the one at \<open>idx\<close>,
  in their order. When the close of the to-client descriptor fails, or that of the
  to-server descriptor after it, the function returns -1 and the server record, with
  the client at \<open>idx\<close>, is unchanged.
\<close>

theorem server_remove_client_in_range:
  assumes "0 \<le> idx" "idx < n_clients s" "n_clients s \<le> int (length (client s))"
  shows "(let c = client s ! nat idx;
              (r1, w1) = sys_close (to_client_fd c) w;
              (r2, w2) = sys_close (to_server_fd c) w1;
              r = server_remove_client s w idx
          in if r1 = 0 \<and> r2 = 0
             then ret_of r = Some 0
                  \<and> n_clients (srv_of r) = n_clients s - 1
                  \<and> live (srv_of r) = take (nat idx) (live s) @ drop (Suc (nat idx)) (live s)
             else ret_of r = Some (- 1) \<and> srv_of r = s)"
proof -
  obtain cs where cs: "shift_clients idx s = Inr (s\<lparr>client := cs\<rparr>)"
      "length cs = length (client s)"
      "\<And>j. j < length cs \<Longrightarrow> cs ! j =
          (if nat idx \<le> j \<and> int j < n_clients s - 1 then client s ! Suc j else client s ! j)"
    using shift_clients_spec [OF assms(1,3)] by blast
  have get: "server_get_client s idx = Inr (nat idx)"
    using assms by (rule server_get_client_in_range)
  have shifted: "take (nat (n_clients s - 1)) cs = take (nat idx) (live s) @ drop (Suc (nat idx)) (live s)"
  proof (rule nth_equalityI)
    show "length (take (nat (n_clients s - 1)) cs) =
        length (take (nat idx) (live s) @ drop (Suc (nat idx)) (live s))"
      using assms cs(2) by (auto simp: live_def)
  next
    fix j assume "j < length (take (nat (n_clients s - 1)) cs)"
    then have j: "j < nat (n_clients s - 1)" "j < length cs" by simp_all
    show "take (nat (n_clients s - 1)) cs ! j =
        (take (nat idx) (live s) @ drop (Suc (nat idx)) (live s)) ! j"
    proof (cases "j < nat idx")
      case True
      then show ?thesis
        using cs(3) [OF j(2)] j assms by (simp add: live_def nth_append)
    next
      case False
      have len_take: "length (take (nat idx) (live s)) = nat idx"
        using assms by (simp add: live_def)
      have lhs: "take (nat (n_clients s - 1)) cs ! j = client s ! Suc j"
        using False cs(3) [OF j(2)] j(1) by simp
      have "(take (nat idx) (live s) @ drop (Suc (nat idx)) (live s)) ! j =
          drop (Suc (nat idx)) (live s) ! (j - nat idx)"
        using False len_take by (simp add: nth_append)
      also have "\<dots> = live s ! (Suc (nat idx) + (j - nat idx))"
        using assms j(1) by (intro nth_drop) (simp add: live_def)
      also have "Suc (nat idx) + (j - nat idx) = Suc j"
        using False by simp
      also have "live s ! Suc j = client s ! Suc j"
        using j(1) by (simp add: live_def)
      finally show ?thesis
        using lhs by simp
    qed
  qed
  define c where "c = client s ! nat idx"
  obtain r1 w1 where c1: "sys_close (to_client_fd c) w = (r1, w1)"
    by force
  obtain r2 w2 where c2: "sys_close (to_server_fd c) w1 = (r2, w2)"
    by force
  have r1: "r1 = 0 \<or> r1 = - 1"
    using sys_close_ret [of "to_client_fd c" w] c1 by simp
  have r2: "r2 = 0 \<or> r2 = - 1"
    using sys_close_ret [of "to_server_fd c" w1] c2 by simp
  define r where "r = server_remove_client s w idx"
  have not_out: "\<not> idx \<ge> n_clients s"
    using assms(2) by simp
  have ok: "ret_of r = Some 0 \<and> srv_of r = s\<lparr>client := cs, n_clients := n_clients s - 1\<rparr>"
    if "r1 = 0" "r2 = 0"
    using that not_out get cs(1) c1 c2
    by (simp add: r_def server_remove_client_def c_def split: prod.splits)
  have fail: "ret_of r = Some (- 1) \<and> srv_of r = s" if "\<not> (r1 = 0 \<and> r2 = 0)"
    using that r1 r2 not_out get c1 c2
    by (auto simp: r_def server_remove_client_def c_def)
  have "if r1 = 0 \<and> r2 = 0
        then ret_of r = Some 0
             \<and> n_clients (srv_of r) = n_clients s - 1
             \<and> live (srv_of r) = take (nat idx) (live s) @ drop (Suc (nat idx)) (live s)
        else ret_of r = Some (- 1) \<and> srv_of r = s"
  proof (cases "r1 = 0 \<and> r2 = 0")
    case True
    then have "live (srv_of r) = take (nat (n_clients s - 1)) cs"
      using ok by (simp add: live_def)
    with True ok shifted show ?thesis by simp
  next
    case False
    with fail show ?thesis by simp
  qed
  then show ?thesis
    unfolding r_def using c1 c2 by (auto simp: c_def Let_def)
qed


theorem server_remove_client_in_range_witness:
  "(0::int) \<le> 0 \<and> 0 < n_clients ex_server
   \<and> n_clients ex_server \<le> int (length (client ex_server))
   \<and> ret_of (server_remove_client ex_server ex_world 0) = Some 0
   \<and> n_clients (srv_of (server_remove_client ex_server ex_world 0)) = 1
   \<and> live (srv_of (server_remove_client ex_server ex_world 0)) = [ex_bob]"
proof -
  have pre: "(0::int) \<le> 0" "0 < n_clients ex_server"
    "n_clients ex_server \<le> int (length (client ex_server))"
    by (simp_all add: ex_server_def)
  show ?thesis
    using pre server_remove_client_in_range [OF pre, of ex_world]
    by (auto simp: Let_def ex_server_def ex_world_def ex_alice_def ex_bob_def live_def
        sys_close_def)
qed

subsection \<open>The bound on \<open>n_clients\<close>\<close>

lemma broadcast_from_srv: "srv_of (broadcast_from i s w mesg) = s"
proof (induction i s w mesg rule: broadcast_from.induct)
  case (1 i s w mesg)
  show ?case
    by (subst broadcast_from.simps)
       (auto simp: Let_def split: sum.splits prod.splits option.splits dest: "1.IH")
qed

lemma server_add_client_n_clients:
  "n_clients (srv_of (server_add_client MAXCLIENTS s w join)) = n_clients s
   \<or> (n_clients s < MAXCLIENTS
       \<and> n_clients (srv_of (server_add_client MAXCLIENTS s w join)) = n_clients s + 1)"
proof -
  have b: "srv_of (case server_broadcast s' w' m of Halt e s'' w'' \<Rightarrow> Halt e s'' w''
                   | Ret u s'' w'' \<Rightarrow> Ret (0::int) s'' w'') = s'" for s' w' m
    using broadcast_from_srv [of 0 s' w' m]
    by (cases "broadcast_from 0 s' w' m") (simp_all add: server_broadcast_def)
  show ?thesis
    by (auto simp: server_add_client_def Let_def b split: prod.splits option.splits)
qed

lemma server_remove_client_srv_n_clients:
  "n_clients (srv_of (server_remove_client s w idx)) = n_clients s
   \<or> (0 \<le> idx \<and> idx < n_clients s
       \<and> n_clients (srv_of (server_remove_client s w idx)) = n_clients s - 1)"
  by (auto simp: server_remove_client_def server_get_client_def check_fail_def in_bounds_def
      Let_def split: prod.splits sum.splits dest: shift_clients_n_clients)

lemma apply_call_inv:
  "n_clients_inv MAXCLIENTS s \<Longrightarrow> n_clients_inv MAXCLIENTS (srv_of (apply_call MAXCLIENTS c s w))"
proof (cases c)
  case (Add join)
  then show "n_clients_inv MAXCLIENTS s \<Longrightarrow> ?thesis"
    using server_add_client_n_clients [of MAXCLIENTS s w join]
    by (auto simp: n_clients_inv_def)
next
  case (Remove idx)
  then show "n_clients_inv MAXCLIENTS s \<Longrightarrow> ?thesis"
    using server_remove_client_srv_n_clients [of s w idx]
    by (auto simp: n_clients_inv_def)
qed

text \<open>
  Claim C6. Every sequence of calls of \<^verbatim>\<open>server_add_client\<close> and
  \<^verbatim>\<open>server_remove_client\<close> that starts in a state with \<open>0 \<le> n_clients \<le> MAXCLIENTS\<close>
  leaves a state with \<open>0 \<le> n_clients \<le> MAXCLIENTS\<close>, wherever the sequence ends. The
  indices need not be in range for this: an index at or beyond \<open>n_clients\<close> changes
  nothing, and a negative one ends the run in the state it was given.
\<close>

theorem n_clients_inv_preserved:
  assumes "n_clients_inv MAXCLIENTS s"
  shows "n_clients_inv MAXCLIENTS (srv_of (apply_calls MAXCLIENTS cs s w))"
  using assms
proof (induction cs arbitrary: s w)
  case Nil
  then show ?case by simp
next
  case (Cons c cs)
  show ?case
  proof (cases "apply_call MAXCLIENTS c s w")
    case (Ret r s' w')
    then have "n_clients_inv MAXCLIENTS s'"
      using apply_call_inv [OF Cons.prems, of c w] by simp
    then show ?thesis
      using Ret Cons.IH by simp
  next
    case (Halt e s' w')
    then show ?thesis
      using apply_call_inv [OF Cons.prems, of c w] by simp
  qed
qed

theorem n_clients_inv_preserved_witness:
  "n_clients_inv 3 ex_server
   \<and> n_clients_inv 3 (srv_of (apply_calls 3 ex_calls ex_server ex_world))
   \<and> ret_of (apply_calls 3 ex_calls ex_server ex_world) = Some ()
   \<and> n_clients (srv_of (apply_calls 3 ex_calls ex_server ex_world)) = 2"
proof -
  have pre: "n_clients_inv 3 ex_server"
    by (simp add: n_clients_inv_def ex_server_def)
  have run: "ret_of (apply_calls 3 ex_calls ex_server ex_world) = Some ()
     \<and> n_clients (srv_of (apply_calls 3 ex_calls ex_server ex_world)) = 2"
    by code_simp
  from pre n_clients_inv_preserved [OF pre, of ex_calls ex_world] run
  show ?thesis by simp
qed


subsection \<open>The \<^verbatim>\<open>%last\<close> command\<close>

lemma of_char_digit_char: "d < 10 \<Longrightarrow> (of_char (digit_char d) :: nat) = 48 + d"
  by (simp add: digit_char_def)

lemma of_char_digit_char_int: "d < 10 \<Longrightarrow> (of_char (digit_char d) :: int) = 48 + int d"
proof -
  assume "d < 10"
  have "(of_char (digit_char d) :: int) = int (of_char (digit_char d))"
    by (simp only: of_nat_of_char)
  with \<open>d < 10\<close> show ?thesis
    by (simp add: of_char_digit_char)
qed

lemma is_digit_digit_char: "d < 10 \<Longrightarrow> is_digit (digit_char d)"
  by (simp add: is_digit_def of_char_digit_char)

lemma digits_val_append:
  "\<forall>c \<in> set ds. is_digit c \<Longrightarrow>
     digits_val a (ds @ rest) = digits_val (digits_val a ds) rest"
  by (induction ds arbitrary: a) simp_all

lemma dec_digits: "c \<in> set (dec n) \<Longrightarrow> is_digit c"
proof (induction n rule: dec.induct)
  case (1 n)
  from "1.prems" show ?case
    by (subst (asm) dec.simps) (auto simp: is_digit_digit_char split: if_splits dest: "1.IH")
qed

lemma digits_val_dec: "digits_val a (dec n) = a * 10 ^ length (dec n) + int n"
proof (induction n arbitrary: a rule: dec.induct)
  case (1 n)
  show ?case
  proof (cases "10 \<le> n")
    case False
    then show ?thesis
      by (subst (1 2) dec.simps) (simp add: is_digit_digit_char of_char_digit_char_int)
  next
    case True
    have ds: "\<forall>c \<in> set (dec (n div 10)). is_digit c"
      using dec_digits by blast
    have "digits_val a (dec n) = digits_val (digits_val a (dec (n div 10))) [digit_char (n mod 10)]"
      using True by (subst dec.simps) (simp add: digits_val_append [OF ds])
    also have "\<dots> = 10 * (a * 10 ^ length (dec (n div 10)) + int (n div 10)) + int (n mod 10)"
      using "1.IH" [OF True] by (simp add: is_digit_digit_char of_char_digit_char_int)
    also have "\<dots> = a * 10 ^ length (dec n) + int n"
      using True by (subst (2) dec.simps) (simp add: algebra_simps zdiv_int zmod_int)
    finally show ?thesis .
  qed
qed

lemma dec_Cons: "\<exists>c cs. dec n = c # cs \<and> is_digit c"
proof -
  have "dec n \<noteq> []"
    by (subst dec.simps) simp
  then obtain c cs where "dec n = c # cs"
    by (cases "dec n") auto
  then show ?thesis
    using dec_digits [of c n] by simp
qed

lemma is_digit_not_space: "is_digit c \<Longrightarrow> \<not> is_space c"
  by (auto simp: is_digit_def is_space_def)

lemma is_digit_not_sign: "is_digit c \<Longrightarrow> c \<noteq> CHR ''-'' \<and> c \<noteq> CHR ''+''"
  by (auto simp: is_digit_def)

lemma digits_val_stop: "\<not> starts_with_digit rest \<Longrightarrow> digits_val a rest = a"
  by (cases rest) (simp_all add: starts_with_digit_def)

lemma atoi_dec:
  assumes "\<not> starts_with_digit rest" "int n < 2 ^ 31"
  shows "atoi (dec n @ rest) = Some (int n)"
proof -
  obtain c cs where c: "dec n = c # cs" "is_digit c"
    using dec_Cons by blast
  have ds: "\<forall>c \<in> set (dec n). is_digit c"
    using dec_digits by blast
  have "digits_val 0 (dec n @ rest) = int n"
    using digits_val_append [OF ds, of 0 rest] digits_val_stop [OF assms(1)]
    by (simp add: digits_val_dec)
  then have "digits_val 0 (c # cs @ rest) = int n"
    using c(1) by simp
  then show ?thesis
    using c assms(2) is_digit_not_space [OF c(2)] is_digit_not_sign [OF c(2)]
    by (simp add: atoi_def Let_def del: digits_val.simps)
qed

lemma long_of_id: "- (2 ^ 63) \<le> x \<Longrightarrow> x < 2 ^ 63 \<Longrightarrow> long_of x = x"
  by (simp add: long_of_def)

lemma pread_mesg_record:
  assumes "0 < M" "0 \<le> W" "j < length (mesgs lg)"
  shows "pread_mesg W M lg (W + M * int j) = Rec (mesgs lg ! j)"
proof -
  have "M * int j < M * int (length (mesgs lg))"
    using assms by simp
  then have below: "\<not> log_size W M lg \<le> W + M * int j"
    by (simp add: log_size_def)
  have "0 \<le> M * int j"
    using assms by simp
  then have nonneg: "\<not> W + M * int j < 0"
    using assms(2) by simp
  have idx: "nat ((W + M * int j - W) div M) = j"
    using assms(1) by simp
  show ?thesis
    using below nonneg idx assms(1) by (simp add: pread_mesg_def)
qed

lemma last_loop_records:
  assumes "0 < M" "0 \<le> W" "log_size W M lg < 2 ^ 63"
  shows "j + n \<le> length (mesgs lg) \<Longrightarrow>
     last_loop W M lg n (W + M * int j) buf = Some (map fmt_mesg (take n (drop j (mesgs lg))))"
proof (induction n arbitrary: j buf)
  case 0
  then show ?case by simp
next
  case (Suc n)
  have j: "j < length (mesgs lg)" using Suc.prems by simp
  have rd: "pread_mesg W M lg (W + M * int j) = Rec (mesgs lg ! j)"
    using assms(1,2) j by (rule pread_mesg_record)
  have "M * int (Suc j) \<le> M * int (length (mesgs lg))"
    using assms(1) Suc.prems by (intro mult_left_mono) simp_all
  then have "W + M * int j + M \<le> log_size W M lg"
    by (simp add: log_size_def algebra_simps)
  moreover have "0 \<le> W + M * int j + M"
    using assms(1,2) by simp
  ultimately have nxt: "long_of (W + M * int j + M) = W + M * int (Suc j)"
    using assms(3) by (simp add: long_of_id algebra_simps)
  have "last_loop W M lg n (W + M * int (Suc j)) (Some (mesgs lg ! j)) =
      Some (map fmt_mesg (take n (drop (Suc j) (mesgs lg))))"
    using Suc.prems by (intro Suc.IH) simp
  moreover have "take (Suc n) (drop j (mesgs lg)) = mesgs lg ! j # take n (drop (Suc j) (mesgs lg))"
    using j by (simp add: Cons_nth_drop_Suc [symmetric])
  ultimately show ?case
    using rd nxt by simp
qed

text \<open>
  Claim C9 says that every line \<^verbatim>\<open>%last N\<close> prints the last \<open>N\<close> records when the
  log holds at least \<open>N\<close>. The number is read by \<^verbatim>\<open>atoi\<close> into an \<^verbatim>\<open>int\<close>. With
  a log of \<open>2\<^sup>3\<^sup>1\<close> records and the line \<^verbatim>\<open>%last 2147483648\<close>, whose digits
  denote \<open>2\<^sup>3\<^sup>1\<close>, the value is outside the range of \<^verbatim>\<open>int\<close> and what is
  printed is not determined.
\<close>

theorem last_cmd_int_range_counterexample:
  "int 2147483648 \<le> int (length (mesgs ex_long_log))
   \<and> log_size 16 8 ex_long_log < 2 ^ 63
   \<and> digits_val 0 ''2147483648'' = 2147483648
   \<and> user_line True 16 8 ex_long_log ''alice'' ''%last 2147483648'' = Indeterminate"
proof -
  have "atoi (drop 6 ''%last 2147483648'') = None"
    by code_simp
  then have "user_line True 16 8 ex_long_log ''alice'' ''%last 2147483648'' = Indeterminate"
    by (simp add: user_line_def strncmp_eq_def last_cmd_def)
  moreover have "digits_val 0 ''2147483648'' = 2147483648"
    by code_simp
  moreover have "length (mesgs ex_long_log) = 2147483648"
    unfolding ex_long_log_def by (simp only: logfile.select_convs length_replicate)
  ultimately show ?thesis
    by (simp add: log_size_def)
qed

text \<open>
  Claim C9, amended. In advanced mode, for a line that consists of \<^verbatim>\<open>%last\<close>, a
  space, the decimal digits of a number \<open>N < 2\<^sup>3\<^sup>1\<close> and then nothing or text
  that does not start with a digit: when the log holds at least \<open>N\<close> message records
  (and is a file, of a size below \<open>2\<^sup>6\<^sup>3\<close>), the client prints the separator, the
  header \<^verbatim>\<open>LAST N MESSAGES\<close>, the last \<open>N\<close> message records of the log in their
  order, each as \<^verbatim>\<open>[name] : body\<close>, and the separator.
\<close>

theorem last_cmd_prints_last_records:
  assumes "0 < M" "0 \<le> W" "log_size W M lg < 2 ^ 63"
    and "N \<le> length (mesgs lg)" "int N < 2 ^ 31"
    and "\<not> starts_with_digit rest"
  shows "user_line True W M lg client_name (''%last '' @ dec N @ rest) =
     Printed ([sep, ''LAST '' @ dec N @ '' MESSAGES'' @ nl]
              @ map fmt_mesg (drop (length (mesgs lg) - N) (mesgs lg))
              @ [sep])"
proof -
  let ?k = "length (mesgs lg)"
  have parse: "atoi (drop 6 (''%last '' @ dec N @ rest)) = Some (int N)"
    using atoi_dec [OF assms(6,5)] by simp
  have "M * int N \<le> M * int ?k"
    using assms(1,4) by (intro mult_left_mono) simp_all
  then have off_eq: "log_size W M lg - int N * M = W + M * int (?k - N)"
    using assms(4) by (simp add: log_size_def algebra_simps of_nat_diff)
  have "0 \<le> W + M * int (?k - N)"
    using assms(1,2) by simp
  moreover have "W + M * int (?k - N) \<le> log_size W M lg"
    using assms(1) by (simp add: log_size_def mult_left_mono)
  ultimately have off: "long_of (log_size W M lg - int N * M) = W + M * int (?k - N)"
    using assms(3) off_eq by (simp add: long_of_id)
  have loop: "last_loop W M lg N (W + M * int (?k - N)) None =
      Some (map fmt_mesg (take N (drop (?k - N) (mesgs lg))))"
    using assms(4) by (intro last_loop_records [OF assms(1,2,3)]) simp
  have tk: "take N (drop (?k - N) (mesgs lg)) = drop (?k - N) (mesgs lg)"
    using assms(4) by simp
  show ?thesis
    using parse off loop tk
    by (simp add: user_line_def strncmp_eq_def last_cmd_def show_int_def Let_def)
qed


theorem last_cmd_prints_last_records_witness:
  "(0::int) < 8 \<and> (0::int) \<le> 16 \<and> log_size 16 8 ex_log < 2 ^ 63
   \<and> 3 \<le> length (mesgs ex_log) \<and> int 3 < 2 ^ 31 \<and> \<not> starts_with_digit []
   \<and> user_line True 16 8 ex_log ''alice'' ''%last 3'' =
       Printed [''====================\<newline>'', ''LAST 3 MESSAGES\<newline>'',
                ''[alice] : two\<newline>'', ''[alice] : three\<newline>'', ''[alice] : four\<newline>'',
                ''====================\<newline>'']"
proof -
  have pre: "(0::int) < 8" "(0::int) \<le> 16" "log_size 16 8 ex_log < 2 ^ 63"
    "3 \<le> length (mesgs ex_log)" "int 3 < 2 ^ 31" "\<not> starts_with_digit []"
    by (simp_all add: log_size_def ex_log_def starts_with_digit_def)
  have d3: "dec 3 = ''3''"
    by code_simp
  show ?thesis
    using pre last_cmd_prints_last_records [OF pre, of "''alice''"]
    by (simp add: d3 ex_log_def sep_def nl_def fmt_mesg_def)
qed



end
